theory Spec2Isabelle
  imports
    Complex_Main
    "HOL-Library.Multiset"
    "HOL-Library.Char_ord"
    "HOL-Library.List_Lexorder"
    "HOL-Library.While_Combinator"
    "HOL-Library.Word"
begin

section \<open>Currency-Exchange-Analyzer: the analytics core\<close>

text \<open>
  A shallow embedding of \<^verbatim>\<open>CurrencyPair\<close> (src/CurrencyPair.cpp) and of the
  \<^verbatim>\<open>CurrencyAnalyzer\<close> (src/CurrencyAnalyzer.cpp): the base-rate table, the
  cross-rate resolver, the ranking functions and the triangular-arbitrage scan.
\<close>

subsection \<open>Values of type double\<close>

text \<open>
  A C++ \<^verbatim>\<open>double\<close> is a real number, an infinity or NaN. The operations follow
  IEEE 754 on the special values, so that a division by zero is the infinity or the NaN
  the program computes and a comparison with NaN is false. Rounding, overflow and the
  sign of zero are not modelled: finite results are exact and every zero is \<open>+0\<close>.
\<close>

datatype double = Fin real | PInf | NInf | NaN

fun dneg :: "double \<Rightarrow> double" where
  "dneg (Fin a) = Fin (- a)"
| "dneg PInf = NInf"
| "dneg NInf = PInf"
| "dneg NaN = NaN"

fun dadd :: "double \<Rightarrow> double \<Rightarrow> double" where
  "dadd NaN _ = NaN"
| "dadd _ NaN = NaN"
| "dadd (Fin a) (Fin b) = Fin (a + b)"
| "dadd PInf NInf = NaN"
| "dadd NInf PInf = NaN"
| "dadd PInf _ = PInf"
| "dadd NInf _ = NInf"
| "dadd (Fin a) PInf = PInf"
| "dadd (Fin a) NInf = NInf"

definition dsub :: "double \<Rightarrow> double \<Rightarrow> double" where
  "dsub a b = dadd a (dneg b)"

fun dmul :: "double \<Rightarrow> double \<Rightarrow> double" where
  "dmul NaN _ = NaN"
| "dmul _ NaN = NaN"
| "dmul (Fin a) (Fin b) = Fin (a * b)"
| "dmul PInf (Fin b) = (if b = 0 then NaN else if 0 < b then PInf else NInf)"
| "dmul NInf (Fin b) = (if b = 0 then NaN else if 0 < b then NInf else PInf)"
| "dmul (Fin a) PInf = (if a = 0 then NaN else if 0 < a then PInf else NInf)"
| "dmul (Fin a) NInf = (if a = 0 then NaN else if 0 < a then NInf else PInf)"
| "dmul PInf PInf = PInf"
| "dmul NInf NInf = PInf"
| "dmul PInf NInf = NInf"
| "dmul NInf PInf = NInf"

fun ddiv :: "double \<Rightarrow> double \<Rightarrow> double" where
  "ddiv NaN _ = NaN"
| "ddiv _ NaN = NaN"
| "ddiv (Fin a) (Fin b) =
     (if b \<noteq> 0 then Fin (a / b)
      else if a = 0 then NaN else if 0 < a then PInf else NInf)"
| "ddiv (Fin a) PInf = Fin 0"
| "ddiv (Fin a) NInf = Fin 0"
| "ddiv PInf (Fin b) = (if 0 \<le> b then PInf else NInf)"
| "ddiv NInf (Fin b) = (if 0 \<le> b then NInf else PInf)"
| "ddiv PInf _ = NaN"
| "ddiv NInf _ = NaN"

fun dless :: "double \<Rightarrow> double \<Rightarrow> bool" where
  "dless NaN _ = False"
| "dless _ NaN = False"
| "dless (Fin a) (Fin b) = (a < b)"
| "dless NInf NInf = False"
| "dless NInf _ = True"
| "dless _ NInf = False"
| "dless PInf _ = False"
| "dless (Fin a) PInf = True"

definition dgreater :: "double \<Rightarrow> double \<Rightarrow> bool" where
  "dgreater a b = dless b a"

fun dle :: "double \<Rightarrow> double \<Rightarrow> bool" where
  "dle NaN _ = False"
| "dle _ NaN = False"
| "dle a b = (a = b \<or> dless a b)"

subsection \<open>CurrencyPair\<close>

record CurrencyPair =
  pairCode :: string
  baseCurrency :: string
  quoteCurrency :: string
  price :: double
  dayChange :: double
  percentChange :: double
  weeklyChange :: double
  monthlyChange :: double
  ytdChange :: double
  yoyChange :: double
  group :: string
  timestamp :: string

text \<open>
  The constructors split the pair code at its first \<^verbatim>\<open>'/'\<close>:
  \<^verbatim>\<open>substr(0, slashPos)\<close> and \<^verbatim>\<open>substr(slashPos + 1)\<close>. Without a slash both
  currencies stay the empty strings they were initialised to.
\<close>

definition splitPairCode :: "string \<Rightarrow> string \<times> string" where
  "splitPairCode code =
     (if CHR ''/'' \<in> set code
      then (takeWhile (\<lambda>c. c \<noteq> CHR ''/'') code, tl (dropWhile (\<lambda>c. c \<noteq> CHR ''/'') code))
      else ([], []))"

text \<open>The full constructor, the one the data reader calls for every parsed line.\<close>

definition mkCurrencyPair ::
  "string \<Rightarrow> double \<Rightarrow> double \<Rightarrow> double \<Rightarrow> double \<Rightarrow> double \<Rightarrow> double \<Rightarrow> double
     \<Rightarrow> string \<Rightarrow> string \<Rightarrow> CurrencyPair" where
  "mkCurrencyPair code pr dc pc wc mc ytd yoy grp ts =
     \<lparr> pairCode = code,
       baseCurrency = fst (splitPairCode code),
       quoteCurrency = snd (splitPairCode code),
       price = pr, dayChange = dc, percentChange = pc, weeklyChange = wc,
       monthlyChange = mc, ytdChange = ytd, yoyChange = yoy,
       group = grp, timestamp = ts \<rparr>"

text \<open>The two-argument constructor \<^verbatim>\<open>CurrencyPair(pairCode, price)\<close>.\<close>

definition mkQuote :: "string \<Rightarrow> double \<Rightarrow> CurrencyPair" where
  "mkQuote code pr =
     mkCurrencyPair code pr (Fin 0) (Fin 0) (Fin 0) (Fin 0) (Fin 0) (Fin 0) [] []"

definition getChangeByMetric :: "CurrencyPair \<Rightarrow> string \<Rightarrow> double" where
  "getChangeByMetric p metric =
     (if metric = ''Percent Change'' then percentChange p
      else if metric = ''Weekly'' then weeklyChange p
      else if metric = ''Monthly'' then monthlyChange p
      else if metric = ''YTD'' then ytdChange p
      else if metric = ''YoY'' then yoyChange p
      else Fin 0)"



subsection \<open>The analyzer and its base-rate table\<close>

type_synonym rate_table = "string \<rightharpoonup> double"

record CurrencyAnalyzer =
  currencyPairs :: "CurrencyPair list"
  baseRates :: rate_table

text \<open>
  First loop of \<^verbatim>\<open>calculateBaseRates\<close>: the quotes against USD, in the order of the
  collection. An assignment to \<^verbatim>\<open>baseRates[k]\<close> replaces what an earlier quote stored.
\<close>

fun seedRates :: "CurrencyPair list \<Rightarrow> rate_table \<Rightarrow> rate_table" where
  "seedRates [] t = t"
| "seedRates (p # ps) t =
     (if baseCurrency p = ''USD'' then seedRates ps (t(quoteCurrency p \<mapsto> price p))
      else if quoteCurrency p = ''USD''
        then seedRates ps (t(baseCurrency p \<mapsto> ddiv (Fin 1) (price p)))
      else seedRates ps t)"

text \<open>
  One run of the \<^verbatim>\<open>for\<close> loop inside the \<^verbatim>\<open>while\<close>: the table and the flag
  \<^verbatim>\<open>ratesUpdated\<close> are threaded through the quotes.
\<close>

fun propagatePass :: "CurrencyPair list \<Rightarrow> rate_table \<times> bool \<Rightarrow> rate_table \<times> bool" where
  "propagatePass [] (t, ratesUpdated) = (t, ratesUpdated)"
| "propagatePass (p # ps) (t, ratesUpdated) =
     (case (t (baseCurrency p), t (quoteCurrency p)) of
        (Some rb, None) \<Rightarrow>
          propagatePass ps (t(quoteCurrency p \<mapsto> dmul rb (price p)), True)
      | (None, Some rq) \<Rightarrow>
          propagatePass ps (t(baseCurrency p \<mapsto> ddiv rq (price p)), True)
      | _ \<Rightarrow> propagatePass ps (t, ratesUpdated))"

text \<open>The currencies a collection mentions (what \<^verbatim>\<open>getAvailableCurrencies\<close> collects).\<close>

definition currenciesOf :: "CurrencyPair list \<Rightarrow> string set" where
  "currenciesOf ps = set (map baseCurrency ps) \<union> set (map quoteCurrency ps)"

lemma propagatePass_dom:
  "propagatePass ps (t, u) = (t', u') \<Longrightarrow>
     dom t \<subseteq> dom t' \<and> dom t' \<subseteq> dom t \<union> currenciesOf ps \<and>
     (u' \<longrightarrow> u \<or> dom t \<subset> dom t')"
proof (induction ps arbitrary: t u)
  case Nil
  then show ?case by simp
next
  case (Cons p ps)
  have cur: "currenciesOf (p # ps) = insert (baseCurrency p) (insert (quoteCurrency p) (currenciesOf ps))"
    by (auto simp: currenciesOf_def)
  show ?case
  proof (cases "t (baseCurrency p)")
    case None
    note nb = None
    show ?thesis
    proof (cases "t (quoteCurrency p)")
      case None
      with nb Cons.prems have "propagatePass ps (t, u) = (t', u')" by simp
      from Cons.IH[OF this] show ?thesis unfolding cur by blast
    next
      case (Some rq)
      define t1 where "t1 = t(baseCurrency p \<mapsto> ddiv rq (price p))"
      from Some nb Cons.prems
      have "propagatePass ps (t1, True) = (t', u')"
        by (simp add: t1_def)
      from Cons.IH[OF this]
      have "dom t1 \<subseteq> dom t'" and "dom t' \<subseteq> dom t1 \<union> currenciesOf ps"
        by simp_all
      moreover have "dom t1 = insert (baseCurrency p) (dom t)" by (simp add: t1_def)
      moreover from nb have "baseCurrency p \<notin> dom t" by (simp add: domIff)
      ultimately have "dom t \<subseteq> dom t'" "dom t \<subset> dom t'"
        "dom t' \<subseteq> dom t \<union> currenciesOf (p # ps)"
        unfolding cur by auto
      then show ?thesis by simp
    qed
  next
    case (Some rb)
    note sb = Some
    show ?thesis
    proof (cases "t (quoteCurrency p)")
      case None
      define t1 where "t1 = t(quoteCurrency p \<mapsto> dmul rb (price p))"
      from None sb Cons.prems
      have "propagatePass ps (t1, True) = (t', u')"
        by (simp add: t1_def)
      from Cons.IH[OF this]
      have "dom t1 \<subseteq> dom t'" and "dom t' \<subseteq> dom t1 \<union> currenciesOf ps"
        by simp_all
      moreover have "dom t1 = insert (quoteCurrency p) (dom t)" by (simp add: t1_def)
      moreover from None have "quoteCurrency p \<notin> dom t" by (simp add: domIff)
      ultimately have "dom t \<subseteq> dom t'" "dom t \<subset> dom t'"
        "dom t' \<subseteq> dom t \<union> currenciesOf (p # ps)"
        unfolding cur by auto
      then show ?thesis by simp
    next
      case (Some rq)
      with sb Cons.prems have "propagatePass ps (t, u) = (t', u')" by simp
      from Cons.IH[OF this] show ?thesis unfolding cur by blast
    qed
  qed
qed

text \<open>
  The \<^verbatim>\<open>while (ratesUpdated)\<close> loop: the flag is reset, the quotes are passed over
  once, and the loop goes round again when the pass has set the flag.
\<close>

function propagateRates :: "CurrencyPair list \<Rightarrow> rate_table \<Rightarrow> rate_table" where
  "propagateRates ps t =
     (case propagatePass ps (t, False) of
        (t', ratesUpdated) \<Rightarrow> if ratesUpdated then propagateRates ps t' else t')"
  by pat_completeness auto

lemma propagatePass_measure:
  assumes "propagatePass ps (t, False) = (t', True)"
  shows "card (currenciesOf ps - dom t') < card (currenciesOf ps - dom t)"
proof -
  from propagatePass_dom[OF assms]
  have sub: "dom t \<subset> dom t'" and bnd: "dom t' \<subseteq> dom t \<union> currenciesOf ps" by auto
  have fin: "finite (currenciesOf ps - dom t)" by (simp add: currenciesOf_def)
  from sub bnd have "currenciesOf ps - dom t' \<subset> currenciesOf ps - dom t" by blast
  then show ?thesis using fin by (simp add: psubset_card_mono)
qed

termination propagateRates
proof (relation "measure (\<lambda>(ps, t). card (currenciesOf ps - dom t))", goal_cases)
  case 1
  show ?case by simp
next
  case (2 ps t t' u)
  then have "propagatePass ps (t, False) = (t', True)" by simp
  from propagatePass_measure[OF this] show ?case by simp
qed

definition calculateBaseRates :: "CurrencyPair list \<Rightarrow> rate_table" where
  "calculateBaseRates ps = propagateRates ps ((seedRates ps Map.empty)(''USD'' \<mapsto> Fin 1))"

text \<open>
  \<^verbatim>\<open>loadFromJson\<close> and \<^verbatim>\<open>loadFromCsv\<close> store the parsed collection and build the
  table from it; this is the analyzer every query runs on.
\<close>

definition loadQuotes :: "CurrencyPair list \<Rightarrow> CurrencyAnalyzer" where
  "loadQuotes ps = \<lparr> currencyPairs = ps, baseRates = calculateBaseRates ps \<rparr>"

text \<open>
  A quote seeds the entry of a currency \<open>X\<close> when it is the quote USD/X or the quote
  X/USD: these are the quotes the first loop stores under the key \<open>X\<close>.
\<close>

definition seedsCurrency :: "CurrencyPair \<Rightarrow> string \<Rightarrow> bool" where
  "seedsCurrency q X =
     (baseCurrency q = ''USD'' \<and> quoteCurrency q = X \<or>
      quoteCurrency q = ''USD'' \<and> baseCurrency q = X)"



subsection \<open>The cross-rate resolver\<close>

text \<open>
  \<^verbatim>\<open>calculateCrossCurrencyRate\<close> looks the two currencies up in the table first. Only
  when one of them has no entry does it walk the collection, and then one loop tests
  every quote for the direct code and for the inverse code, in that order, and returns
  at the first quote that matches either. The warning written to \<^verbatim>\<open>std::cerr\<close>
  before the sentinel \<open>0.0\<close> is not modelled.
\<close>

fun lookupDirectOrInverse :: "string \<Rightarrow> string \<Rightarrow> CurrencyPair list \<Rightarrow> double option" where
  "lookupDirectOrInverse directPair inversePair [] = None"
| "lookupDirectOrInverse directPair inversePair (p # ps) =
     (if pairCode p = directPair then Some (price p)
      else if pairCode p = inversePair then Some (ddiv (Fin 1) (price p))
      else lookupDirectOrInverse directPair inversePair ps)"

definition calculateCrossCurrencyRate :: "CurrencyAnalyzer \<Rightarrow> string \<Rightarrow> string \<Rightarrow> double" where
  "calculateCrossCurrencyRate s fromCurrency toCurrency =
     (case (baseRates s fromCurrency, baseRates s toCurrency) of
        (Some rateFrom, Some rateTo) \<Rightarrow> ddiv rateTo rateFrom
      | _ \<Rightarrow>
        (case lookupDirectOrInverse (fromCurrency @ ''/'' @ toCurrency)
                (toCurrency @ ''/'' @ fromCurrency) (currencyPairs s) of
           Some r \<Rightarrow> r
         | None \<Rightarrow> Fin 0))"

text \<open>
  \<^verbatim>\<open>getExchangeRate\<close> runs two loops, each returning at its first match: the direct
  code over the whole collection, then the inverse code, and only then the table.
\<close>

definition getExchangeRate :: "CurrencyAnalyzer \<Rightarrow> string \<Rightarrow> string \<Rightarrow> double" where
  "getExchangeRate s fromCurrency toCurrency =
     (case find (\<lambda>p. pairCode p = fromCurrency @ ''/'' @ toCurrency) (currencyPairs s) of
        Some p \<Rightarrow> price p
      | None \<Rightarrow>
        (case find (\<lambda>p. pairCode p = toCurrency @ ''/'' @ fromCurrency) (currencyPairs s) of
           Some p \<Rightarrow> ddiv (Fin 1) (price p)
         | None \<Rightarrow> calculateCrossCurrencyRate s fromCurrency toCurrency))"

subsection \<open>The triangular-arbitrage scan\<close>

text \<open>
  \<^verbatim>\<open>getAvailableCurrencies\<close> inserts every base and quote currency into a
  \<^verbatim>\<open>std::set<std::string>\<close> and copies it out: the codes without repetition, in
  increasing order.
\<close>

definition getAvailableCurrencies :: "CurrencyAnalyzer \<Rightarrow> string list" where
  "getAvailableCurrencies s = sorted_list_of_set (currenciesOf (currencyPairs s))"

text \<open>The arrow of the path is U+2192, three bytes in the UTF-8 source.\<close>

definition arrow :: string where
  "arrow = [CHR 0xE2, CHR 0x86, CHR 0x92]"

definition arbitragePath :: "string \<Rightarrow> string \<Rightarrow> string \<Rightarrow> string" where
  "arbitragePath currA currB currC = currA @ arrow @ currB @ arrow @ currC @ arrow @ currA"

text \<open>The three nested loops, innermost first; \<^verbatim>\<open>continue\<close> goes on with the rest.\<close>

fun scanC :: "CurrencyAnalyzer \<Rightarrow> string \<Rightarrow> string \<Rightarrow> string list \<Rightarrow> (string \<times> double) list" where
  "scanC s currA currB [] = []"
| "scanC s currA currB (currC # cs) =
     (if currA = currC \<or> currB = currC then scanC s currA currB cs
      else
        (let rateAB = calculateCrossCurrencyRate s currA currB;
             rateBC = calculateCrossCurrencyRate s currB currC;
             rateCA = calculateCrossCurrencyRate s currC currA
         in if dle rateAB (Fin 0) \<or> dle rateBC (Fin 0) \<or> dle rateCA (Fin 0)
            then scanC s currA currB cs
            else
              (let profit = dmul (dsub (dmul (dmul rateAB rateBC) rateCA) (Fin 1)) (Fin 100)
               in if dgreater profit (Fin 1)
                  then (arbitragePath currA currB currC, profit) # scanC s currA currB cs
                  else scanC s currA currB cs)))"

fun scanB :: "CurrencyAnalyzer \<Rightarrow> string \<Rightarrow> string list \<Rightarrow> string list \<Rightarrow> (string \<times> double) list" where
  "scanB s currA currencies [] = []"
| "scanB s currA currencies (currB # bs) =
     (if currA = currB then scanB s currA currencies bs
      else scanC s currA currB currencies @ scanB s currA currencies bs)"

fun scanA :: "CurrencyAnalyzer \<Rightarrow> string list \<Rightarrow> string list \<Rightarrow> (string \<times> double) list" where
  "scanA s currencies [] = []"
| "scanA s currencies (currA # as) =
     scanB s currA currencies currencies @ scanA s currencies as"

definition findArbitrageOpportunities :: "CurrencyAnalyzer \<Rightarrow> (string \<times> double) list" where
  "findArbitrageOpportunities s =
     (let currencies = getAvailableCurrencies s in scanA s currencies currencies)"






subsection \<open>The performance ranking\<close>

text \<open>
  Both ranking functions call \<^verbatim>\<open>std::sort\<close>, which is library code. It is a
  parameter of the model, and what the C++ standard promises of it is the contract
  below: for a comparator that is a strict weak ordering of the elements, the result is
  a permutation in which no element is followed by one that the comparator puts before
  it. The standard promises nothing about the order of equivalent elements.
\<close>

definition strict_weak_order :: "('a \<Rightarrow> 'a \<Rightarrow> bool) \<Rightarrow> 'a set \<Rightarrow> bool" where
  "strict_weak_order cmp A =
     ((\<forall>a\<in>A. \<not> cmp a a) \<and>
      (\<forall>a\<in>A. \<forall>b\<in>A. \<forall>c\<in>A. cmp a b \<and> cmp b c \<longrightarrow> cmp a c) \<and>
      (\<forall>a\<in>A. \<forall>b\<in>A. \<forall>c\<in>A. cmp a c \<longrightarrow> cmp a b \<or> cmp b c))"

definition std_sort_contract ::
  "(('a \<Rightarrow> 'a \<Rightarrow> bool) \<Rightarrow> 'a list \<Rightarrow> 'a list) \<Rightarrow> bool" where
  "std_sort_contract srt =
     (\<forall>cmp xs. strict_weak_order cmp (set xs) \<longrightarrow>
        mset (srt cmp xs) = mset xs \<and> sorted_wrt (\<lambda>a b. \<not> cmp b a) (srt cmp xs))"

text \<open>
  \<^verbatim>\<open>static_cast<int>(sortedPairs.size())\<close> keeps the low 32 bits of the size, read
  as a signed number.
\<close>

definition size_to_int :: "nat \<Rightarrow> int" where
  "size_to_int n = sint (word_of_nat n :: 32 word)"

text \<open>
  The result is the iterator range \<^verbatim>\<open>[begin, begin + resultCount)\<close>. With a negative
  \<^verbatim>\<open>resultCount\<close> its end lies before its start and constructing the vector from it
  is undefined behaviour; the model returns that as an error value.
\<close>

datatype error = InvalidIteratorRange

definition getTopPerformers ::
  "((CurrencyPair \<Rightarrow> CurrencyPair \<Rightarrow> bool) \<Rightarrow> CurrencyPair list \<Rightarrow> CurrencyPair list)
     \<Rightarrow> CurrencyAnalyzer \<Rightarrow> string \<Rightarrow> int \<Rightarrow> error + CurrencyPair list" where
  "getTopPerformers std_sort s metric count' =
     (let sortedPairs =
            std_sort (\<lambda>a b. dgreater (getChangeByMetric a metric) (getChangeByMetric b metric))
              (currencyPairs s);
          resultCount = min count' (size_to_int (length sortedPairs))
      in if resultCount < 0 then Inl InvalidIteratorRange
         else Inr (take (nat resultCount) sortedPairs))"

definition getWorstPerformers ::
  "((CurrencyPair \<Rightarrow> CurrencyPair \<Rightarrow> bool) \<Rightarrow> CurrencyPair list \<Rightarrow> CurrencyPair list)
     \<Rightarrow> CurrencyAnalyzer \<Rightarrow> string \<Rightarrow> int \<Rightarrow> error + CurrencyPair list" where
  "getWorstPerformers std_sort s metric count' =
     (let sortedPairs =
            std_sort (\<lambda>a b. dless (getChangeByMetric a metric) (getChangeByMetric b metric))
              (currencyPairs s);
          resultCount = min count' (size_to_int (length sortedPairs))
      in if resultCount < 0 then Inl InvalidIteratorRange
         else Inr (take (nat resultCount) sortedPairs))"

text \<open>
  Two sorting functions that meet the contract of \<^verbatim>\<open>std::sort\<close>. Both are insertion
  sorts; the first puts an element before the elements equivalent to it and so keeps
  equivalent elements in their input order, the second puts it after them and so
  reverses their order.
\<close>

fun insertBeforeEquals :: "('a \<Rightarrow> 'a \<Rightarrow> bool) \<Rightarrow> 'a \<Rightarrow> 'a list \<Rightarrow> 'a list" where
  "insertBeforeEquals cmp x [] = [x]"
| "insertBeforeEquals cmp x (y # ys) =
     (if cmp y x then y # insertBeforeEquals cmp x ys else x # y # ys)"

fun insertionSort :: "('a \<Rightarrow> 'a \<Rightarrow> bool) \<Rightarrow> 'a list \<Rightarrow> 'a list" where
  "insertionSort cmp [] = []"
| "insertionSort cmp (x # xs) = insertBeforeEquals cmp x (insertionSort cmp xs)"



section \<open>Properties\<close>

subsection \<open>The base-rate table\<close>

declare propagateRates.simps [simp del]

lemma propagatePass_keeps:
  "propagatePass ps (t, u) = (t', u') \<Longrightarrow> t k = Some v \<Longrightarrow> t' k = Some v"
proof (induction ps arbitrary: t u)
  case Nil
  then show ?case by simp
next
  case (Cons p ps)
  show ?case
  proof (cases "t (baseCurrency p)")
    case None
    note nb = None
    show ?thesis
    proof (cases "t (quoteCurrency p)")
      case None
      with nb Cons.prems have "propagatePass ps (t, u) = (t', u')" by simp
      from Cons.IH[OF this Cons.prems(2)] show ?thesis .
    next
      case (Some rq)
      define t1 where "t1 = t(baseCurrency p \<mapsto> ddiv rq (price p))"
      from Some nb Cons.prems have "propagatePass ps (t1, True) = (t', u')"
        by (simp add: t1_def)
      moreover from nb Cons.prems(2) have "t1 k = Some v" by (auto simp: t1_def)
      ultimately show ?thesis by (rule Cons.IH)
    qed
  next
    case (Some rb)
    note sb = Some
    show ?thesis
    proof (cases "t (quoteCurrency p)")
      case None
      define t1 where "t1 = t(quoteCurrency p \<mapsto> dmul rb (price p))"
      from None sb Cons.prems have "propagatePass ps (t1, True) = (t', u')"
        by (simp add: t1_def)
      moreover from None Cons.prems(2) have "t1 k = Some v" by (auto simp: t1_def)
      ultimately show ?thesis by (rule Cons.IH)
    next
      case (Some rq)
      with sb Cons.prems have "propagatePass ps (t, u) = (t', u')" by simp
      from Cons.IH[OF this Cons.prems(2)] show ?thesis .
    qed
  qed
qed

lemma propagateRates_keeps:
  "t k = Some v \<Longrightarrow> propagateRates ps t k = Some v"
proof (induction ps t rule: propagateRates.induct)
  case (1 ps t)
  obtain t' u where pp: "propagatePass ps (t, False) = (t', u)"
    by (cases "propagatePass ps (t, False)")
  from propagatePass_keeps[OF pp "1.prems"] have k: "t' k = Some v" .
  show ?case
  proof (cases u)
    case True
    with pp have "propagateRates ps t = propagateRates ps t'"
      by (subst propagateRates.simps) simp
    moreover from "1.IH"[OF pp[symmetric] True k] have "propagateRates ps t' k = Some v" .
    ultimately show ?thesis by simp
  next
    case False
    with pp have "propagateRates ps t = t'"
      by (subst propagateRates.simps) simp
    with k show ?thesis by simp
  qed
qed

text \<open>
  Claim C7. Whatever the collection, the table built by \<^verbatim>\<open>calculateBaseRates\<close> maps
  USD to exactly 1.0: the assignment after the seeding loop replaces any value a quote
  such as USD/USD has stored, and the propagation loop never overwrites an entry.
\<close>

theorem calculateBaseRates_USD:
  "calculateBaseRates ps ''USD'' = Some (Fin 1) \<and>
   baseRates (loadQuotes ps) ''USD'' = Some (Fin 1) \<and>
   propagateRates ps (t(''USD'' \<mapsto> v)) ''USD'' = Some v"
  by (simp add: calculateBaseRates_def loadQuotes_def propagateRates_keeps)

lemma seedRates_append: "seedRates (xs @ ys) t = seedRates ys (seedRates xs t)"
  by (induction xs arbitrary: t) simp_all

lemma seedRates_unseeded:
  "\<forall>r\<in>set ps. \<not> seedsCurrency r X \<Longrightarrow> seedRates ps t X = t X"
  by (induction ps arbitrary: t) (auto simp: seedsCurrency_def)










text \<open>
  Claim C3, as amended. For a currency \<open>X\<close> other than USD and a quote USD/X of the
  collection that no later USD/X or X/USD quote follows, the table maps \<open>X\<close> to the
  price of that quote; for such a quote X/USD it maps \<open>X\<close> to the reciprocal of its
  price. A later quote for the same currency overwrites the entry, and the entry of
  USD itself is always 1.0.
\<close>

theorem calculateBaseRates_seeded:
  assumes "X \<noteq> ''USD''" and "\<forall>r\<in>set post. \<not> seedsCurrency r X"
  shows "(baseCurrency q = ''USD'' \<and> quoteCurrency q = X \<longrightarrow>
            calculateBaseRates (pre @ q # post) X = Some (price q)) \<and>
         (quoteCurrency q = ''USD'' \<and> baseCurrency q = X \<longrightarrow>
            calculateBaseRates (pre @ q # post) X = Some (ddiv (Fin 1) (price q)))"
proof -
  let ?t = "seedRates pre Map.empty"
  have seeded: "seedRates (q # post) ?t X = Some v \<Longrightarrow>
      calculateBaseRates (pre @ q # post) X = Some v" for v
  proof -
    assume "seedRates (q # post) ?t X = Some v"
    then have "seedRates (pre @ q # post) Map.empty X = Some v"
      by (simp only: seedRates_append)
    with assms(1) have "((seedRates (pre @ q # post) Map.empty)(''USD'' \<mapsto> Fin 1)) X = Some v"
      by simp
    then show ?thesis unfolding calculateBaseRates_def by (rule propagateRates_keeps)
  qed
  have "calculateBaseRates (pre @ q # post) X = Some (price q)"
    if "baseCurrency q = ''USD''" "quoteCurrency q = X"
  proof (rule seeded)
    from that have "seedRates (q # post) ?t X = seedRates post (?t(X \<mapsto> price q)) X"
      by simp
    also have "\<dots> = (?t(X \<mapsto> price q)) X" using assms(2) by (rule seedRates_unseeded)
    finally show "seedRates (q # post) ?t X = Some (price q)" by simp
  qed
  moreover have "calculateBaseRates (pre @ q # post) X = Some (ddiv (Fin 1) (price q))"
    if "quoteCurrency q = ''USD''" "baseCurrency q = X"
  proof (rule seeded)
    from that assms(1)
    have "seedRates (q # post) ?t X = seedRates post (?t(X \<mapsto> ddiv (Fin 1) (price q))) X"
      by simp
    also have "\<dots> = (?t(X \<mapsto> ddiv (Fin 1) (price q))) X"
      using assms(2) by (rule seedRates_unseeded)
    finally show "seedRates (q # post) ?t X = Some (ddiv (Fin 1) (price q))" by simp
  qed
  ultimately show ?thesis by blast
qed

lemmas quote_simps = mkQuote_def mkCurrencyPair_def splitPairCode_def

theorem calculateBaseRates_seeded_witness:
  "calculateBaseRates
     [mkQuote ''USD/EUR'' (Fin 2), mkQuote ''USD/EUR'' (Fin 3), mkQuote ''EUR/JPY'' (Fin 50)]
     ''EUR'' = Some (Fin 3) \<and>
   calculateBaseRates
     [mkQuote ''USD/GBP'' (Fin 2), mkQuote ''GBP/USD'' (Fin 4), mkQuote ''EUR/JPY'' (Fin 50)]
     ''GBP'' = Some (Fin (1 / 4))"
proof -
  have h1: "''EUR'' \<noteq> ''USD''" and h1': "''GBP'' \<noteq> ''USD''" by simp_all
  have h2: "\<forall>r\<in>set [mkQuote ''EUR/JPY'' (Fin 50)]. \<not> seedsCurrency r ''EUR''"
    and h2': "\<forall>r\<in>set [mkQuote ''EUR/JPY'' (Fin 50)]. \<not> seedsCurrency r ''GBP''"
    by (simp_all add: seedsCurrency_def quote_simps)
  from calculateBaseRates_seeded[OF h1 h2, of "mkQuote ''USD/EUR'' (Fin 3)" "[mkQuote ''USD/EUR'' (Fin 2)]"]
       calculateBaseRates_seeded[OF h1' h2', of "mkQuote ''GBP/USD'' (Fin 4)" "[mkQuote ''USD/GBP'' (Fin 2)]"]
  show ?thesis by (simp add: quote_simps)
qed

text \<open>
  The claim as stated, for every quote, fails: the USD/EUR quote at 2 is followed by
  an EUR/USD quote at 4 and the table holds 1/4 for EUR, and a USD/USD quote at 2
  leaves 1 for USD.
\<close>

theorem calculateBaseRates_seeded_counterexample:
  "baseCurrency (mkQuote ''USD/EUR'' (Fin 2)) = ''USD'' \<and>
   quoteCurrency (mkQuote ''USD/EUR'' (Fin 2)) = ''EUR'' \<and>
   calculateBaseRates [mkQuote ''USD/EUR'' (Fin 2), mkQuote ''EUR/USD'' (Fin 4)] ''EUR''
     = Some (Fin (1 / 4)) \<and>
   Some (Fin (1 / 4)) \<noteq> Some (price (mkQuote ''USD/EUR'' (Fin 2))) \<and>
   baseCurrency (mkQuote ''USD/USD'' (Fin 2)) = ''USD'' \<and>
   quoteCurrency (mkQuote ''USD/USD'' (Fin 2)) = ''USD'' \<and>
   calculateBaseRates [mkQuote ''USD/USD'' (Fin 2)] ''USD'' = Some (Fin 1) \<and>
   Some (Fin 1) \<noteq> Some (price (mkQuote ''USD/USD'' (Fin 2)))"
  by (simp add: calculateBaseRates_def propagateRates.simps quote_simps)




subsection \<open>The cross-rate resolver\<close>

lemma lookupDirectOrInverse_find:
  "lookupDirectOrInverse d i ps =
     map_option (\<lambda>q. if pairCode q = d then price q else ddiv (Fin 1) (price q))
       (find (\<lambda>p. pairCode p = d \<or> pairCode p = i) ps)"
  by (induction ps) simp_all

text \<open>
  Claim C1, as amended. \<^verbatim>\<open>getExchangeRate(from, to)\<close> returns the price of the
  first quote of the collection whose code is from/to and, when there is none, the
  reciprocal of the price of the first quote whose code is to/from, whatever the table
  holds. \<^verbatim>\<open>calculateCrossCurrencyRate(from, to)\<close> returns table[to] / table[from]
  whenever both currencies have an entry; only when one of them has none does it return
  the value of a quote, and then of the first quote whose code is from/to or to/from.
\<close>

theorem exchange_rate_precedence:
  "(find (\<lambda>p. pairCode p = fromCurrency @ ''/'' @ toCurrency) (currencyPairs s) = Some q \<longrightarrow>
      getExchangeRate s fromCurrency toCurrency = price q) \<and>
   (find (\<lambda>p. pairCode p = fromCurrency @ ''/'' @ toCurrency) (currencyPairs s) = None \<and>
    find (\<lambda>p. pairCode p = toCurrency @ ''/'' @ fromCurrency) (currencyPairs s) = Some q \<longrightarrow>
      getExchangeRate s fromCurrency toCurrency = ddiv (Fin 1) (price q)) \<and>
   (baseRates s fromCurrency = Some rateFrom \<and> baseRates s toCurrency = Some rateTo \<longrightarrow>
      calculateCrossCurrencyRate s fromCurrency toCurrency = ddiv rateTo rateFrom) \<and>
   ((baseRates s fromCurrency = None \<or> baseRates s toCurrency = None) \<and>
    find (\<lambda>p. pairCode p = fromCurrency @ ''/'' @ toCurrency \<or>
               pairCode p = toCurrency @ ''/'' @ fromCurrency) (currencyPairs s) = Some q \<longrightarrow>
      calculateCrossCurrencyRate s fromCurrency toCurrency =
        (if pairCode q = fromCurrency @ ''/'' @ toCurrency then price q
         else ddiv (Fin 1) (price q)))"
proof (intro conjI impI)
  assume "find (\<lambda>p. pairCode p = fromCurrency @ ''/'' @ toCurrency) (currencyPairs s) = Some q"
  then show "getExchangeRate s fromCurrency toCurrency = price q"
    by (simp add: getExchangeRate_def)
next
  assume "find (\<lambda>p. pairCode p = fromCurrency @ ''/'' @ toCurrency) (currencyPairs s) = None \<and>
    find (\<lambda>p. pairCode p = toCurrency @ ''/'' @ fromCurrency) (currencyPairs s) = Some q"
  then show "getExchangeRate s fromCurrency toCurrency = ddiv (Fin 1) (price q)"
    by (simp add: getExchangeRate_def)
next
  assume "baseRates s fromCurrency = Some rateFrom \<and> baseRates s toCurrency = Some rateTo"
  then show "calculateCrossCurrencyRate s fromCurrency toCurrency = ddiv rateTo rateFrom"
    by (simp add: calculateCrossCurrencyRate_def)
next
  assume a: "(baseRates s fromCurrency = None \<or> baseRates s toCurrency = None) \<and>
    find (\<lambda>p. pairCode p = fromCurrency @ ''/'' @ toCurrency \<or>
               pairCode p = toCurrency @ ''/'' @ fromCurrency) (currencyPairs s) = Some q"
  then have "lookupDirectOrInverse (fromCurrency @ ''/'' @ toCurrency)
      (toCurrency @ ''/'' @ fromCurrency) (currencyPairs s)
    = Some (if pairCode q = fromCurrency @ ''/'' @ toCurrency then price q
            else ddiv (Fin 1) (price q))"
    by (simp add: lookupDirectOrInverse_find)
  with a show "calculateCrossCurrencyRate s fromCurrency toCurrency =
        (if pairCode q = fromCurrency @ ''/'' @ toCurrency then price q
         else ddiv (Fin 1) (price q))"
    by (auto simp: calculateCrossCurrencyRate_def split: option.splits)
qed

lemmas load_simps = loadQuotes_def calculateBaseRates_def propagateRates.simps

theorem exchange_rate_precedence_witness:
  "getExchangeRate
     (loadQuotes [mkQuote ''USD/EUR'' (Fin 2), mkQuote ''USD/GBP'' (Fin 4), mkQuote ''EUR/GBP'' (Fin 3)])
     ''EUR'' ''GBP'' = Fin 3 \<and>
   getExchangeRate
     (loadQuotes [mkQuote ''USD/EUR'' (Fin 2), mkQuote ''USD/GBP'' (Fin 4), mkQuote ''EUR/GBP'' (Fin 3)])
     ''GBP'' ''EUR'' = Fin (1 / 3) \<and>
   calculateCrossCurrencyRate
     (loadQuotes [mkQuote ''USD/EUR'' (Fin 2), mkQuote ''USD/GBP'' (Fin 4), mkQuote ''EUR/GBP'' (Fin 3)])
     ''EUR'' ''GBP'' = Fin 2 \<and>
   calculateCrossCurrencyRate
     (loadQuotes [mkQuote ''CHF/SEK'' (Fin 8), mkQuote ''SEK/CHF'' (Fin 5)])
     ''SEK'' ''CHF'' = Fin (1 / 8)"
proof -
  let ?s = "loadQuotes [mkQuote ''USD/EUR'' (Fin 2), mkQuote ''USD/GBP'' (Fin 4),
    mkQuote ''EUR/GBP'' (Fin 3)]"
  let ?u = "loadQuotes [mkQuote ''CHF/SEK'' (Fin 8), mkQuote ''SEK/CHF'' (Fin 5)]"
  have h1: "find (\<lambda>p. pairCode p = ''EUR'' @ ''/'' @ ''GBP'') (currencyPairs ?s)
      = Some (mkQuote ''EUR/GBP'' (Fin 3))"
    by (simp add: loadQuotes_def quote_simps)
  have h2: "find (\<lambda>p. pairCode p = ''GBP'' @ ''/'' @ ''EUR'') (currencyPairs ?s) = None \<and>
      find (\<lambda>p. pairCode p = ''EUR'' @ ''/'' @ ''GBP'') (currencyPairs ?s)
        = Some (mkQuote ''EUR/GBP'' (Fin 3))"
    by (simp add: loadQuotes_def quote_simps)
  have h3: "baseRates ?s ''EUR'' = Some (Fin 2) \<and> baseRates ?s ''GBP'' = Some (Fin 4)"
    by (simp add: load_simps quote_simps)
  have h4: "(baseRates ?u ''SEK'' = None \<or> baseRates ?u ''CHF'' = None) \<and>
      find (\<lambda>p. pairCode p = ''SEK'' @ ''/'' @ ''CHF'' \<or> pairCode p = ''CHF'' @ ''/'' @ ''SEK'')
        (currencyPairs ?u) = Some (mkQuote ''CHF/SEK'' (Fin 8))"
    by (simp add: load_simps quote_simps)
  from exchange_rate_precedence[of "''EUR''" "''GBP''" ?s "mkQuote ''EUR/GBP'' (Fin 3)"] h1
  have g1: "getExchangeRate ?s ''EUR'' ''GBP'' = Fin 3" by (simp add: quote_simps)
  from exchange_rate_precedence[of "''GBP''" "''EUR''" ?s "mkQuote ''EUR/GBP'' (Fin 3)"] h2
  have g2: "getExchangeRate ?s ''GBP'' ''EUR'' = Fin (1 / 3)" by (simp add: quote_simps)
  from exchange_rate_precedence[of "''EUR''" "''GBP''" ?s _ "Fin 2" "Fin 4"] h3
  have g3: "calculateCrossCurrencyRate ?s ''EUR'' ''GBP'' = Fin 2" by simp
  from exchange_rate_precedence[of "''SEK''" "''CHF''" ?u "mkQuote ''CHF/SEK'' (Fin 8)"] h4
  have g4: "calculateCrossCurrencyRate ?u ''SEK'' ''CHF'' = Fin (1 / 8)" by (simp add: quote_simps)
  from g1 g2 g3 g4 show ?thesis by simp
qed

text \<open>
  With USD/EUR at 2, USD/GBP at 4 and EUR/GBP at 3, both currencies are in the table
  and \<^verbatim>\<open>calculateCrossCurrencyRate\<close> returns 4/2 for EUR to GBP, not the quoted 3.
  With CHF/SEK at 8 before SEK/CHF at 5 and neither currency in the table, it returns
  1/8 for SEK to CHF, not the price 5 of the direct quote.
\<close>

theorem cross_rate_precedence_counterexample:
  "pairCode (mkQuote ''EUR/GBP'' (Fin 3)) = ''EUR'' @ ''/'' @ ''GBP'' \<and>
   mkQuote ''EUR/GBP'' (Fin 3)
     \<in> set [mkQuote ''USD/EUR'' (Fin 2), mkQuote ''USD/GBP'' (Fin 4), mkQuote ''EUR/GBP'' (Fin 3)] \<and>
   calculateCrossCurrencyRate
     (loadQuotes [mkQuote ''USD/EUR'' (Fin 2), mkQuote ''USD/GBP'' (Fin 4), mkQuote ''EUR/GBP'' (Fin 3)])
     ''EUR'' ''GBP'' = Fin 2 \<and>
   Fin 2 \<noteq> price (mkQuote ''EUR/GBP'' (Fin 3)) \<and>
   pairCode (mkQuote ''SEK/CHF'' (Fin 5)) = ''SEK'' @ ''/'' @ ''CHF'' \<and>
   mkQuote ''SEK/CHF'' (Fin 5) \<in> set [mkQuote ''CHF/SEK'' (Fin 8), mkQuote ''SEK/CHF'' (Fin 5)] \<and>
   calculateCrossCurrencyRate
     (loadQuotes [mkQuote ''CHF/SEK'' (Fin 8), mkQuote ''SEK/CHF'' (Fin 5)])
     ''SEK'' ''CHF'' = Fin (1 / 8) \<and>
   Fin (1 / 8) \<noteq> price (mkQuote ''SEK/CHF'' (Fin 5))"
  by (simp add: calculateCrossCurrencyRate_def load_simps quote_simps)















subsection \<open>The triangular-arbitrage scan\<close>


















subsection \<open>Inverting a pair twice\<close>










subsection \<open>The performance ranking\<close>










lemma swo_subset: "strict_weak_order cmp A \<Longrightarrow> B \<subseteq> A \<Longrightarrow> strict_weak_order cmp B"
  unfolding strict_weak_order_def by blast








lemma dless_swo:
  "\<forall>a\<in>A. key a \<noteq> NaN \<Longrightarrow> strict_weak_order (\<lambda>a b. dless (key a) (key b)) A"
  unfolding strict_weak_order_def
proof (intro conjI ballI impI)
  fix a assume "a \<in> A"
  show "\<not> dless (key a) (key a)" by (cases "key a") simp_all
next
  fix a b c assume "dless (key a) (key b) \<and> dless (key b) (key c)"
  then show "dless (key a) (key c)"
    by (cases "key a"; cases "key b"; cases "key c") simp_all
next
  fix a b c assume n: "\<forall>a\<in>A. key a \<noteq> NaN" and "b \<in> A" and "dless (key a) (key c)"
  then have "key b \<noteq> NaN" by blast
  with \<open>dless (key a) (key c)\<close> show "dless (key a) (key b) \<or> dless (key b) (key c)"
    by (cases "key a"; cases "key b"; cases "key c") auto
qed

lemma dgreater_swo:
  "\<forall>a\<in>A. key a \<noteq> NaN \<Longrightarrow> strict_weak_order (\<lambda>a b. dgreater (key a) (key b)) A"
  using dless_swo[of A key] unfolding strict_weak_order_def dgreater_def by blast

lemma not_dless_iff: "a \<noteq> NaN \<Longrightarrow> b \<noteq> NaN \<Longrightarrow> (\<not> dless a b) = dle b a"
  by (cases a; cases b) auto


lemma size_to_int_small: "n < 2 ^ 31 \<Longrightarrow> size_to_int n = int n"
proof -
  assume n: "n < 2 ^ 31"
  then have "int n < 2 ^ 31" by (metis of_nat_less_iff of_nat_numeral of_nat_power)
  then have "signed_take_bit 31 (int n) = int n"
    by (intro signed_take_bit_int_eq_self) simp_all
  then show ?thesis by (simp add: size_to_int_def signed_of_nat)
qed


lemma sorted_performers:
  assumes c: "std_sort_contract srt"
    and nan: "\<forall>p\<in>set xs. key p \<noteq> NaN"
  shows "mset (srt (\<lambda>a b. dgreater (key a) (key b)) xs) = mset xs"
    and "sorted_wrt (\<lambda>a b. \<not> dless (key a) (key b)) (srt (\<lambda>a b. dgreater (key a) (key b)) xs)"
    and "mset (srt (\<lambda>a b. dless (key a) (key b)) xs) = mset xs"
    and "sorted_wrt (\<lambda>a b. \<not> dless (key b) (key a)) (srt (\<lambda>a b. dless (key a) (key b)) xs)"
proof -
  from c dgreater_swo[OF nan]
  have g: "mset (srt (\<lambda>a b. dgreater (key a) (key b)) xs) = mset xs \<and>
      sorted_wrt (\<lambda>a b. \<not> dgreater (key b) (key a)) (srt (\<lambda>a b. dgreater (key a) (key b)) xs)"
    unfolding std_sort_contract_def by blast
  from c dless_swo[OF nan]
  have l: "mset (srt (\<lambda>a b. dless (key a) (key b)) xs) = mset xs \<and>
      sorted_wrt (\<lambda>a b. \<not> dless (key b) (key a)) (srt (\<lambda>a b. dless (key a) (key b)) xs)"
    unfolding std_sort_contract_def by blast
  from g show "mset (srt (\<lambda>a b. dgreater (key a) (key b)) xs) = mset xs"
    and "sorted_wrt (\<lambda>a b. \<not> dless (key a) (key b)) (srt (\<lambda>a b. dgreater (key a) (key b)) xs)"
    by (simp_all add: dgreater_def)
  from l show "mset (srt (\<lambda>a b. dless (key a) (key b)) xs) = mset xs"
    and "sorted_wrt (\<lambda>a b. \<not> dless (key b) (key a)) (srt (\<lambda>a b. dless (key a) (key b)) xs)"
    by simp_all
qed

lemma result_count:
  assumes "length xs < 2 ^ 31" and "0 \<le> n" and "length ys = length xs"
  shows "\<not> min n (size_to_int (length ys)) < 0"
    and "take (nat (min n (size_to_int (length ys)))) ys = take (min (nat n) (length xs)) ys"
proof -
  from assms(1,3) have s: "size_to_int (length ys) = int (length xs)"
    by (simp add: size_to_int_small)
  from assms(2) show "\<not> min n (size_to_int (length ys)) < 0" unfolding s by simp
  from assms(2) have "nat (min n (int (length xs))) = min (nat n) (length xs)" by linarith
  then show "take (nat (min n (size_to_int (length ys)))) ys = take (min (nat n) (length xs)) ys"
    unfolding s by simp
qed

lemma performers_prefix:
  assumes "std_sort_contract srt"
    and "\<forall>p\<in>set (currencyPairs s). getChangeByMetric p metric \<noteq> NaN"
    and "length (currencyPairs s) < 2 ^ 31" and "0 \<le> n"
  shows "(\<exists>ys. mset ys = mset (currencyPairs s) \<and>
            sorted_wrt (\<lambda>a b. dle (getChangeByMetric b metric) (getChangeByMetric a metric)) ys \<and>
            getTopPerformers srt s metric n
              = Inr (take (min (nat n) (length (currencyPairs s))) ys)) \<and>
         (\<exists>zs. mset zs = mset (currencyPairs s) \<and>
            sorted_wrt (\<lambda>a b. dle (getChangeByMetric a metric) (getChangeByMetric b metric)) zs \<and>
            getWorstPerformers srt s metric n
              = Inr (take (min (nat n) (length (currencyPairs s))) zs))"
proof
  let ?xs = "currencyPairs s"
  let ?key = "\<lambda>p. getChangeByMetric p metric"
  let ?ys = "srt (\<lambda>a b. dgreater (?key a) (?key b)) ?xs"
  let ?zs = "srt (\<lambda>a b. dless (?key a) (?key b)) ?xs"
  note sp = sorted_performers[OF assms(1), of ?xs ?key, OF assms(2)]
  have ly: "length ?ys = length ?xs" using sp(1) by (metis size_mset)
  have lz: "length ?zs = length ?xs" using sp(3) by (metis size_mset)
  have sy: "set ?ys = set ?xs" using sp(1) by (metis set_mset_mset)
  have sz: "set ?zs = set ?xs" using sp(3) by (metis set_mset_mset)
  have "sorted_wrt (\<lambda>a b. dle (?key b) (?key a)) ?ys"
    using sp(2)
  proof (rule sorted_wrt_mono_rel[rotated])
    fix a b assume "a \<in> set ?ys" "b \<in> set ?ys" "\<not> dless (?key a) (?key b)"
    with assms(2) sy show "dle (?key b) (?key a)" by (simp add: not_dless_iff)
  qed
  moreover have "getTopPerformers srt s metric n = Inr (take (min (nat n) (length ?xs)) ?ys)"
    using result_count[OF assms(3,4) ly] by (simp add: getTopPerformers_def Let_def)
  ultimately show "\<exists>ys. mset ys = mset ?xs \<and> sorted_wrt (\<lambda>a b. dle (?key b) (?key a)) ys \<and>
      getTopPerformers srt s metric n = Inr (take (min (nat n) (length ?xs)) ys)"
    using sp(1) by blast
  have "sorted_wrt (\<lambda>a b. dle (?key a) (?key b)) ?zs"
    using sp(4)
  proof (rule sorted_wrt_mono_rel[rotated])
    fix a b assume "a \<in> set ?zs" "b \<in> set ?zs" "\<not> dless (?key b) (?key a)"
    with assms(2) sz show "dle (?key a) (?key b)" by (simp add: not_dless_iff)
  qed
  moreover have "getWorstPerformers srt s metric n = Inr (take (min (nat n) (length ?xs)) ?zs)"
    using result_count[OF assms(3,4) lz] by (simp add: getWorstPerformers_def Let_def)
  ultimately show "\<exists>zs. mset zs = mset ?xs \<and> sorted_wrt (\<lambda>a b. dle (?key a) (?key b)) zs \<and>
      getWorstPerformers srt s metric n = Inr (take (min (nat n) (length ?xs)) zs)"
    using sp(3) by blast
qed






text \<open>
  The count \<open>n\<close>: a negative one makes the iterator range invalid, zero gives the empty
  list, and one larger than the size gives the whole sorted collection.
\<close>

lemma performers_negative:
  assumes "n < 0"
  shows "getTopPerformers srt s metric n = Inl InvalidIteratorRange"
    and "getWorstPerformers srt s metric n = Inl InvalidIteratorRange"
  using assms by (simp_all add: getTopPerformers_def getWorstPerformers_def Let_def min_def)

lemma performers_zero:
  assumes "std_sort_contract srt"
    and "\<forall>p\<in>set (currencyPairs s). getChangeByMetric p metric \<noteq> NaN"
    and "length (currencyPairs s) < 2 ^ 31"
  shows "getTopPerformers srt s metric 0 = Inr []"
    and "getWorstPerformers srt s metric 0 = Inr []"
  using performers_prefix[OF assms, of 0] by auto

lemma performers_large:
  assumes "std_sort_contract srt"
    and "\<forall>p\<in>set (currencyPairs s). getChangeByMetric p metric \<noteq> NaN"
    and "length (currencyPairs s) < 2 ^ 31"
    and "int (length (currencyPairs s)) < n"
  shows "\<exists>ys. getTopPerformers srt s metric n = Inr ys \<and> mset ys = mset (currencyPairs s)"
    and "\<exists>zs. getWorstPerformers srt s metric n = Inr zs \<and> mset zs = mset (currencyPairs s)"
proof -
  from assms(4) have n: "0 \<le> n" and m: "min (nat n) (length (currencyPairs s)) = length (currencyPairs s)"
    by linarith+
  from performers_prefix[OF assms(1-3) n] obtain ys zs where
    "mset ys = mset (currencyPairs s)" "mset zs = mset (currencyPairs s)"
    "getTopPerformers srt s metric n = Inr (take (length (currencyPairs s)) ys)"
    "getWorstPerformers srt s metric n = Inr (take (length (currencyPairs s)) zs)"
    unfolding m by blast
  moreover from this have "length ys = length (currencyPairs s)" "length zs = length (currencyPairs s)"
    by (metis size_mset)+
  ultimately show
    "\<exists>ys. getTopPerformers srt s metric n = Inr ys \<and> mset ys = mset (currencyPairs s)"
    "\<exists>zs. getWorstPerformers srt s metric n = Inr zs \<and> mset zs = mset (currencyPairs s)"
    by simp_all
qed


lemmas ranking_simps = getTopPerformers_def getWorstPerformers_def getChangeByMetric_def
  size_to_int_small dgreater_def loadQuotes_def Let_def





text \<open>
  Claim C8, at the input where the code departs from it: with \<open>n = -1\<close> on a
  collection of one record, \<^verbatim>\<open>resultCount\<close> is \<open>min(-1, 1) = -1\<close> and both
  functions build their result from the range \<^verbatim>\<open>[begin, begin - 1)\<close>, where the claim
  says they return an empty list.
\<close>

theorem performers_negative_count:
  "getTopPerformers insertionSort (loadQuotes [mkQuote ''USD/INR'' (Fin 83)]) ''Percent Change'' (- 1)
     = Inl InvalidIteratorRange \<and>
   getWorstPerformers insertionSort (loadQuotes [mkQuote ''USD/INR'' (Fin 83)]) ''Percent Change'' (- 1)
     = Inl InvalidIteratorRange"
  by (simp add: ranking_simps quote_simps)

subsection \<open>The examples of the specification\<close>

text \<open>
  The model run on the examples the specification gives: the quotes USD/INR at 83,
  EUR/USD at 1.10 and USD/JPY at 150 with the rate from EUR to INR, a chain of quotes
  that needs two passes of the propagation loop, and the arbitrage triangle A/B at 2,
  B/C at 3, C/A at 0.20 with its profit of 20 percent.
\<close>

lemma getAvailableCurrencies_example:
  "getAvailableCurrencies
     (loadQuotes [mkQuote ''B/C'' (Fin 3), mkQuote ''A/B'' (Fin 2), mkQuote ''C/A'' (Fin (1 / 5))])
   = [''A'', ''B'', ''C'']"
  by code_simp

lemma base_rates_example:
  "baseRates (loadQuotes [mkQuote ''USD/INR'' (Fin 83), mkQuote ''EUR/USD'' (Fin (11 / 10)),
      mkQuote ''USD/JPY'' (Fin 150)]) ''EUR'' = Some (Fin (10 / 11))"
  "getExchangeRate (loadQuotes [mkQuote ''USD/INR'' (Fin 83), mkQuote ''EUR/USD'' (Fin (11 / 10)),
      mkQuote ''USD/JPY'' (Fin 150)]) ''EUR'' ''INR'' = Fin (913 / 10)"
  "calculateBaseRates [mkQuote ''GBP/JPY'' (Fin 5), mkQuote ''EUR/GBP'' (Fin 3),
      mkQuote ''USD/EUR'' (Fin 2)] ''JPY'' = Some (Fin 30)"
  by (simp_all add: getExchangeRate_def calculateCrossCurrencyRate_def load_simps quote_simps)

lemma findArbitrageOpportunities_example:
  "findArbitrageOpportunities
     (loadQuotes [mkQuote ''A/B'' (Fin 2), mkQuote ''B/C'' (Fin 3), mkQuote ''C/A'' (Fin (1 / 5))])
   = [(arbitragePath ''A'' ''B'' ''C'', Fin 20), (arbitragePath ''B'' ''C'' ''A'', Fin 20),
      (arbitragePath ''C'' ''A'' ''B'', Fin 20)]"
  by code_simp

end
